theory Spec2Isabelle
  imports Complex_Main "HOL-Library.Product_Lexorder" "HOL-Library.Multiset"
begin

section \<open>Data model\<close>

text \<open>
  A pandas Timestamp is modelled by its calendar fields
  (year, month, day, hour, minute, second); the lexicographic order of the
  tuple is the chronological order. A cell of a wait-time column is a float64
  that may be NaN: \<open>None\<close> is NaN, \<open>Some v\<close> a number. Numbers are rationals,
  so that a mean is the exact arithmetic mean.
\<close>

type_synonym timestamp = "nat \<times> nat \<times> nat \<times> nat \<times> nat \<times> nat"

type_synonym val = rat

definition dt_year :: "timestamp \<Rightarrow> nat" where
  "dt_year t = fst t"

definition dt_month :: "timestamp \<Rightarrow> nat" where
  "dt_month t = fst (snd t)"

definition dt_day :: "timestamp \<Rightarrow> nat" where
  "dt_day t = fst (snd (snd t))"

definition dt_hour :: "timestamp \<Rightarrow> nat" where
  "dt_hour t = fst (snd (snd (snd t)))"

text \<open>
  The five wait-time columns of \<open>data_df\<close>, in the order of the list
  \<open>["SPOSTMIN_dino", "SPOSTMIN_everest", "SPOSTMIN_passage", "SPOSTMIN_safari",
  "SPOSTMIN_navi"]\<close> that the source iterates over.
\<close>

datatype ride = Dino | Everest | Passage | Safari | Navi

definition rides :: "ride list" where
  "rides = [Dino, Everest, Passage, Safari, Navi]"

text \<open>A row of \<open>data_df\<close> after lines 33-43: the key, the five ride columns and
  the four derived calendar columns.\<close>

record row =
  datetime :: timestamp
  SPOSTMIN_dino :: "val option"
  SPOSTMIN_everest :: "val option"
  SPOSTMIN_passage :: "val option"
  SPOSTMIN_safari :: "val option"
  SPOSTMIN_navi :: "val option"
  Year :: nat
  Month :: nat
  Day :: nat
  Hour :: nat

text \<open>\<open>data_df[col]\<close> read and written for one of the five columns.\<close>

fun get :: "ride \<Rightarrow> row \<Rightarrow> val option" where
  "get Dino r = SPOSTMIN_dino r"
| "get Everest r = SPOSTMIN_everest r"
| "get Passage r = SPOSTMIN_passage r"
| "get Safari r = SPOSTMIN_safari r"
| "get Navi r = SPOSTMIN_navi r"

fun put :: "ride \<Rightarrow> val option \<Rightarrow> row \<Rightarrow> row" where
  "put Dino v r = r\<lparr>SPOSTMIN_dino := v\<rparr>"
| "put Everest v r = r\<lparr>SPOSTMIN_everest := v\<rparr>"
| "put Passage v r = r\<lparr>SPOSTMIN_passage := v\<rparr>"
| "put Safari v r = r\<lparr>SPOSTMIN_safari := v\<rparr>"
| "put Navi v r = r\<lparr>SPOSTMIN_navi := v\<rparr>"

section \<open>Loading and merging (lines 15-43)\<close>

text \<open>
  Lines 26-30 for one csv file: the columns SACTMIN and date are dropped, which
  leaves (datetime, SPOSTMIN); \<open>dropna(subset = ["SPOSTMIN"])\<close> removes the rows
  whose posted time is NaN, so the cleaned column holds numbers only.
\<close>

definition dropna :: "(timestamp \<times> val option) list \<Rightarrow> (timestamp \<times> val) list" where
  "dropna df = concat (map (\<lambda>(t, v). case v of None \<Rightarrow> [] | Some w \<Rightarrow> [(t, w)]) df)"

text \<open>
  \<open>pd.merge(left, right, how = "outer")\<close> on the one common column, the key.
  The keys of the result are the union of the keys of both frames, sorted; a key
  on one side only gets NaN (\<open>None\<close>) for the columns of the other side; a key
  that occurs several times on both sides gives every combination of its rows.
\<close>

definition merge_rows :: "('k \<times> 'a) list \<Rightarrow> ('k \<times> 'b) list \<Rightarrow> 'k \<Rightarrow> ('k \<times> 'a option \<times> 'b option) list" where
  "merge_rows left right k =
     (let ls = map snd (filter (\<lambda>p. fst p = k) left);
          rs = map snd (filter (\<lambda>p. fst p = k) right)
      in if rs = [] then map (\<lambda>a. (k, Some a, None)) ls
         else if ls = [] then map (\<lambda>b. (k, None, Some b)) rs
         else concat (map (\<lambda>a. map (\<lambda>b. (k, Some a, Some b)) rs) ls))"

definition merge_outer :: "('k::linorder \<times> 'a) list \<Rightarrow> ('k \<times> 'b) list \<Rightarrow> ('k \<times> 'a option \<times> 'b option) list" where
  "merge_outer left right =
     concat (map (merge_rows left right) (sort (remdups (map fst left @ map fst right))))"

text \<open>A row that the left frame lacks has NaN in each of the left frame's columns.\<close>

definition fill_left :: "'a \<Rightarrow> ('k \<times> 'a option \<times> 'b) \<Rightarrow> ('k \<times> 'a \<times> 'b)" where
  "fill_left nulls p = (case p of (k, l, r) \<Rightarrow> (k, (case l of None \<Rightarrow> nulls | Some a \<Rightarrow> a), r))"

text \<open>
  Lines 33-37: the priming merge of dino and everest, then the loop over
  \<open>dfs[2]\<close>, \<open>dfs[3]\<close>, \<open>dfs[4]\<close>, one merge each. The loop is written out, because
  the frame gains a column in every round.
\<close>

definition merge_all ::
  "(timestamp \<times> val) list \<Rightarrow> (timestamp \<times> val) list \<Rightarrow> (timestamp \<times> val) list \<Rightarrow>
   (timestamp \<times> val) list \<Rightarrow> (timestamp \<times> val) list \<Rightarrow>
   (timestamp \<times> (((val option \<times> val option) \<times> val option) \<times> val option) \<times> val option) list" where
  "merge_all dino everest passage safari navi =
     (let d1 = merge_outer dino everest;
          d2 = map (fill_left (None, None)) (merge_outer d1 passage);
          d3 = map (fill_left ((None, None), None)) (merge_outer d2 safari);
          d4 = map (fill_left (((None, None), None), None)) (merge_outer d3 navi)
      in d4)"

text \<open>Lines 40-43: the calendar columns, derived from the key.\<close>

definition calendar :: "timestamp \<times> (((val option \<times> val option) \<times> val option) \<times> val option) \<times> val option \<Rightarrow> row" where
  "calendar p = (case p of (t, (((d, e), pa), s), n) \<Rightarrow>
     \<lparr>datetime = t, SPOSTMIN_dino = d, SPOSTMIN_everest = e, SPOSTMIN_passage = pa,
      SPOSTMIN_safari = s, SPOSTMIN_navi = n,
      Year = dt_year t, Month = dt_month t, Day = dt_day t, Hour = dt_hour t\<rparr>)"

definition unified ::
  "(timestamp \<times> val) list \<Rightarrow> (timestamp \<times> val) list \<Rightarrow> (timestamp \<times> val) list \<Rightarrow>
   (timestamp \<times> val) list \<Rightarrow> (timestamp \<times> val) list \<Rightarrow> row list" where
  "unified dino everest passage safari navi =
     map calendar (merge_all dino everest passage safari navi)"

section \<open>Sorting, backfill and the closed-ride marker (lines 50-66)\<close>

text \<open>Line 50: \<open>data_df.sort_values("datetime")\<close>.\<close>

definition sort_values :: "row list \<Rightarrow> row list" where
  "sort_values df = sort_key datetime df"

text \<open>\<open>Series.bfill()\<close>: a NaN takes the next value below it that is not NaN.\<close>

fun bfill :: "'a option list \<Rightarrow> 'a option list" where
  "bfill [] = []"
| "bfill (None # xs) = (case bfill xs of [] \<Rightarrow> None | y # ys \<Rightarrow> y) # bfill xs"
| "bfill (Some v # xs) = Some v # bfill xs"

text \<open>
  \<open>df.groupby(keys)[col].bfill()\<close>: the column is split into the groups of equal
  key, each group is filled on its own in the row order of the frame, and the
  result has the rows of the frame again: row \<open>i\<close> gets the filled value at its
  place in its group. \<open>ks\<close> are the keys of the rows and \<open>vs\<close> the column.
\<close>

definition group_bfill :: "'k list \<Rightarrow> 'a option list \<Rightarrow> 'a option list" where
  "group_bfill ks vs =
     map (\<lambda>i. bfill (map (\<lambda>j. vs ! j) (filter (\<lambda>j. ks ! j = ks ! i) [0..<length ks]))
               ! length (filter (\<lambda>j. ks ! j = ks ! i) [0..<i]))
         [0..<length ks]"

definition day_key :: "row \<Rightarrow> nat \<times> nat \<times> nat" where
  "day_key r = (Year r, Month r, Day r)"

text \<open>Line 57 for one column: \<open>data_df[col] = data_df.groupby(["Year", "Month", "Day"])[col].bfill()\<close>.\<close>

definition bfill_col :: "ride \<Rightarrow> row list \<Rightarrow> row list" where
  "bfill_col c df =
     map (\<lambda>(v, r). put c v r) (zip (group_bfill (map day_key df) (map (get c) df)) df)"

text \<open>Lines 56-57: the loop over the five columns.\<close>

definition backfill :: "row list \<Rightarrow> row list" where
  "backfill df = fold bfill_col rides df"

text \<open>
  Line 66: \<open>data_df.replace(-999, np.nan)\<close>. The replacement looks at every
  column; a calendar column holds a natural number and the key a timestamp, so
  only the five ride columns can hold -999.
\<close>

definition replace_cell :: "val option \<Rightarrow> val option" where
  "replace_cell v = (if v = Some (- 999) then None else v)"

definition replace_sentinel :: "row list \<Rightarrow> row list" where
  "replace_sentinel df =
     map (\<lambda>r. r\<lparr>SPOSTMIN_dino := replace_cell (SPOSTMIN_dino r),
                SPOSTMIN_everest := replace_cell (SPOSTMIN_everest r),
                SPOSTMIN_passage := replace_cell (SPOSTMIN_passage r),
                SPOSTMIN_safari := replace_cell (SPOSTMIN_safari r),
                SPOSTMIN_navi := replace_cell (SPOSTMIN_navi r)\<rparr>) df"

text \<open>Lines 15-66: the table the dashboard reads.\<close>

definition data_df ::
  "(timestamp \<times> val option) list \<Rightarrow> (timestamp \<times> val option) list \<Rightarrow>
   (timestamp \<times> val option) list \<Rightarrow> (timestamp \<times> val option) list \<Rightarrow>
   (timestamp \<times> val option) list \<Rightarrow> row list" where
  "data_df dino everest passage safari navi =
     replace_sentinel (backfill (sort_values
       (unified (dropna dino) (dropna everest) (dropna passage) (dropna safari) (dropna navi))))"

section \<open>The dashboard callback (lines 158-209)\<close>

text \<open>The date of the date picker after \<open>pd.to_datetime\<close>: year, month, day.\<close>

type_synonym date = "nat \<times> nat \<times> nat"

definition date_month :: "date \<Rightarrow> nat" where
  "date_month d = fst (snd d)"

definition date_day :: "date \<Rightarrow> nat" where
  "date_day d = snd (snd d)"

text \<open>
  A trace of a figure (\<open>go.Scatter\<close> or \<open>go.Bar\<close>): the \<open>x\<close> values, the \<open>y\<close>
  values, which plotly pairs by position, and the \<open>name\<close> shown in the legend
  when one is given. The layout of a figure (titles and colours) is the same in
  every call and is left out; a figure is the list of its traces.
\<close>

record trace =
  trace_x :: "nat list"
  trace_y :: "val option list"
  trace_name :: "string option"

datatype error = KeyError | ValueError

definition col :: "string list" where
  "col = [''SPOSTMIN_dino'', ''SPOSTMIN_everest'', ''SPOSTMIN_passage'', ''SPOSTMIN_safari'',
          ''SPOSTMIN_navi'']"

definition name :: "string list" where
  "name = [''Dinosaur'', ''Expedition Everest'', ''Flight of Passage'', ''Kilimanjaro Safaris'',
           ''Navi River'']"

text \<open>The columns of \<open>data_df\<close> that are not in \<open>col\<close>.\<close>

definition other_columns :: "string list" where
  "other_columns = [''datetime'', ''Year'', ''Month'', ''Day'', ''Hour'']"

text \<open>\<open>xs.index(a)\<close>: the first position of \<open>a\<close>; \<open>None\<close> where Python raises ValueError.\<close>

fun index :: "'a list \<Rightarrow> 'a \<Rightarrow> nat option" where
  "index [] a = None"
| "index (x # xs) a = (if x = a then Some 0 else map_option Suc (index xs a))"

text \<open>
  \<open>Series.mean()\<close>: NaN is skipped. The sum runs over the cells with NaN counted
  as 0 and is divided by the number of cells that are not NaN; the mean of no
  number at all is NaN.
\<close>

definition mean :: "val option list \<Rightarrow> val option" where
  "mean xs =
     (let total = fold (\<lambda>x acc. case x of None \<Rightarrow> acc | Some v \<Rightarrow> acc + v) xs 0;
          count = length (filter (\<lambda>x. x \<noteq> None) xs)
      in if count = 0 then None else Some (total / of_nat count))"

text \<open>
  \<open>data.groupby([key])[c].mean()\<close>: one entry for each key that occurs, the keys
  ascending; the entry of a group without a number is NaN.
\<close>

definition groupby_mean :: "(row \<Rightarrow> nat) \<Rightarrow> ride \<Rightarrow> row list \<Rightarrow> val option list" where
  "groupby_mean key c data =
     map (\<lambda>k. mean (map (get c) (filter (\<lambda>r. key r = k) data))) (sort (remdups (map key data)))"

text \<open>Lines 176 and 190: the rows of the selected day and month.\<close>

definition day_rows :: "row list \<Rightarrow> date \<Rightarrow> row list" where
  "day_rows df d = filter (\<lambda>r. Day r = date_day d \<and> Month r = date_month d) df"

text \<open>
  \<open>list(set(xs))\<close> lists the distinct elements of \<open>xs\<close> in the order of the slots of
  the set's hash table, which Python does not specify. The enumeration is the
  parameter \<open>list_set\<close> of the callback; \<open>set_iteration\<close> says what every
  enumeration of a set satisfies.
\<close>

definition set_iteration :: "(nat list \<Rightarrow> nat list) \<Rightarrow> bool" where
  "set_iteration list_set \<longleftrightarrow> (\<forall>xs. distinct (list_set xs) \<and> set (list_set xs) = set xs)"

text \<open>
  \<open>data.apply(list)\<close> calls \<open>list\<close> on every column and builds a frame of the lists,
  which has the columns of \<open>data\<close> again. For a frame without rows pandas instead
  calls \<open>list\<close> on an empty Series and builds a Series of the result, the empty
  list, over the ten column labels: the lengths differ and ValueError is raised.
\<close>

definition apply_list :: "row list \<Rightarrow> error + row list" where
  "apply_list data = (if data = [] then Inl ValueError else Inr data)"

text \<open>Lines 178-180 and 192-197: the line of one ride, \<open>data\<close> having rows.\<close>

definition line_trace :: "(nat list \<Rightarrow> nat list) \<Rightarrow> row list \<Rightarrow> ride \<Rightarrow> string option \<Rightarrow> trace" where
  "line_trace list_set data c label =
     \<lparr>trace_x = list_set (map Hour data), trace_y = groupby_mean Hour c data, trace_name = label\<rparr>"

text \<open>Lines 182-187 and 199-206: the bar of one ride; \<open>sorted.sort()\<close> orders the years.\<close>

definition bar_trace :: "(nat list \<Rightarrow> nat list) \<Rightarrow> row list \<Rightarrow> ride \<Rightarrow> string option \<Rightarrow> trace" where
  "bar_trace list_set data c label =
     \<lparr>trace_x = sort (list_set (map Year data)), trace_y = groupby_mean Year c data,
      trace_name = label\<rparr>"

text \<open>
  Lines 173-187, the loop of the branch \<open>ride == "All"\<close>: round \<open>r\<close> adds a line and a
  bar of column \<open>col[r]\<close>, both named \<open>name[r]\<close>; \<open>figs\<close> are the traces added so far.
\<close>

fun add_traces ::
  "(nat list \<Rightarrow> nat list) \<Rightarrow> row list \<Rightarrow> nat list \<Rightarrow> trace list \<times> trace list \<Rightarrow>
   error + (trace list \<times> trace list)" where
  "add_traces list_set data [] figs = Inr figs"
| "add_traces list_set data (r # rs) figs =
     (case apply_list data of
        Inl e \<Rightarrow> Inl e
      | Inr cols \<Rightarrow>
          add_traces list_set data rs
            (fst figs @ [line_trace list_set cols (rides ! r) (Some (name ! r))],
             snd figs @ [bar_trace list_set cols (rides ! r) (Some (name ! r))]))"

text \<open>
  \<open>update_charts(ride, date)\<close> over the table \<open>df\<close>; the result is
  (\<open>line_chart_figure\<close>, \<open>bar_chart_figure\<close>). In the branch of a single ride,
  \<open>data.groupby(["Hour"])[ride]\<close> raises KeyError when \<open>ride\<close> is no column of the
  table; \<open>data.apply(list)\<close> raises ValueError when no row is selected, and so does
  \<open>col.index(ride)\<close> when \<open>ride\<close> is a column outside \<open>col\<close>. For a column of \<open>col\<close> the
  line is named \<open>name[col.index(ride)]\<close> and the bar of line 206 is given no name.
\<close>

definition update_charts ::
  "(nat list \<Rightarrow> nat list) \<Rightarrow> row list \<Rightarrow> string \<Rightarrow> date \<Rightarrow> error + (trace list \<times> trace list)" where
  "update_charts list_set df ride d =
     (let data = day_rows df d in
      if ride = ''All'' then add_traces list_set data [0..<length col] ([], [])
      else if ride \<notin> set col \<and> ride \<notin> set other_columns then Inl KeyError
      else
        (case apply_list data of
           Inl e \<Rightarrow> Inl e
         | Inr cols \<Rightarrow>
             (case index col ride of
                None \<Rightarrow> Inl ValueError
              | Some i \<Rightarrow>
                  Inr ([line_trace list_set cols (rides ! i) (Some (name ! i))],
                       [bar_trace list_set cols (rides ! i) None]))))"

text \<open>
  The callback statement by statement. The state holds the module's table
  \<open>data_df\<close> and the names the function assigns: \<open>data\<close>, \<open>means\<close>, \<open>sorted\<close> and the
  traces of \<open>line_chart_figure\<close> and \<open>bar_chart_figure\<close>. Python binds these names anew
  in every call; here a call may start from any values of them, those a previous
  call left behind included. A statement gives the error it raises, if any, and
  the state after it.
\<close>

record py_state =
  st_data_df :: "row list"
  st_data :: "row list"
  st_means :: "val option list"
  st_sorted :: "nat list"
  st_line :: "trace list"
  st_bar :: "trace list"

type_synonym stmt = "py_state \<Rightarrow> error option \<times> py_state"

text \<open>A block of statements: the first error ends it.\<close>

fun run_stmts :: "stmt list \<Rightarrow> stmt" where
  "run_stmts [] s = (None, s)"
| "run_stmts (f # fs) s = (case f s of (Some e, s') \<Rightarrow> (Some e, s') | (None, s') \<Rightarrow> run_stmts fs s')"

text \<open>An exception.\<close>

definition raise :: "error \<Rightarrow> stmt" where
  "raise e s = (Some e, s)"

text \<open>Lines 167-168 and 195-196: \<open>line_chart_figure = go.Figure()\<close>, a figure without traces;
  \<open>update_layout\<close> sets titles and colours only.\<close>

definition new_line_figure :: stmt where
  "new_line_figure s = (None, s\<lparr>st_line := []\<rparr>)"

text \<open>Lines 169-170 and 204-205: \<open>bar_chart_figure = go.Figure()\<close>.\<close>

definition new_bar_figure :: stmt where
  "new_bar_figure s = (None, s\<lparr>st_bar := []\<rparr>)"

text \<open>Lines 176 and 190: \<open>data = data_df.loc[...]\<close>, a new frame; \<open>data_df\<close> is read.\<close>

definition select_rows :: "date \<Rightarrow> stmt" where
  "select_rows d s = (None, s\<lparr>st_data := day_rows (st_data_df s) d\<rparr>)"

text \<open>Lines 178 and 192: \<open>means = data.groupby(["Hour"])[c].mean()\<close>.\<close>

definition hour_means :: "ride \<Rightarrow> stmt" where
  "hour_means c s = (None, s\<lparr>st_means := groupby_mean Hour c (st_data s)\<rparr>)"

text \<open>Lines 180 and 197: \<open>line_chart_figure.add_trace(go.Scatter(x = list(set(data.apply(list)["Hour"])), y = means, name = label))\<close>.\<close>

definition add_line :: "(nat list \<Rightarrow> nat list) \<Rightarrow> string option \<Rightarrow> stmt" where
  "add_line list_set label s =
     (case apply_list (st_data s) of
        Inl e \<Rightarrow> (Some e, s)
      | Inr cols \<Rightarrow>
          (None, s\<lparr>st_line := st_line s @
             [\<lparr>trace_x = list_set (map Hour cols), trace_y = st_means s, trace_name = label\<rparr>]\<rparr>))"

text \<open>Lines 182 and 199: \<open>means = data.groupby(["Year"])[c].mean()\<close>.\<close>

definition year_means :: "ride \<Rightarrow> stmt" where
  "year_means c s = (None, s\<lparr>st_means := groupby_mean Year c (st_data s)\<rparr>)"

text \<open>Lines 184 and 201: \<open>sorted = list(set(data.apply(list)["Year"]))\<close>.\<close>

definition year_list :: "(nat list \<Rightarrow> nat list) \<Rightarrow> stmt" where
  "year_list list_set s =
     (case apply_list (st_data s) of
        Inl e \<Rightarrow> (Some e, s)
      | Inr cols \<Rightarrow> (None, s\<lparr>st_sorted := list_set (map Year cols)\<rparr>))"

text \<open>Lines 185 and 202: \<open>sorted.sort()\<close>, in place, on the list of the line before.\<close>

definition sort_years :: stmt where
  "sort_years s = (None, s\<lparr>st_sorted := sort (st_sorted s)\<rparr>)"

text \<open>Lines 187 and 206: \<open>bar_chart_figure.add_trace(go.Bar(x = sorted, y = means, name = label))\<close>.\<close>

definition add_bar :: "string option \<Rightarrow> stmt" where
  "add_bar label s =
     (None, s\<lparr>st_bar := st_bar s @
        [\<lparr>trace_x = st_sorted s, trace_y = st_means s, trace_name = label\<rparr>]\<rparr>)"

text \<open>Lines 174-187: round \<open>r\<close> of the loop of the branch \<open>ride == "All"\<close>.\<close>

definition iteration :: "(nat list \<Rightarrow> nat list) \<Rightarrow> date \<Rightarrow> nat \<Rightarrow> stmt list" where
  "iteration list_set d r =
     [select_rows d, hour_means (rides ! r), add_line list_set (Some (name ! r)),
      year_means (rides ! r), year_list list_set, sort_years, add_bar (Some (name ! r))]"

text \<open>Lines 166-187: the branch \<open>ride == "All"\<close>.\<close>

definition all_body :: "(nat list \<Rightarrow> nat list) \<Rightarrow> date \<Rightarrow> stmt list" where
  "all_body list_set d =
     new_line_figure # new_bar_figure # concat (map (iteration list_set d) [0..<length col])"

text \<open>
  Lines 189-206: the branch of a single ride. Line 192 raises KeyError when \<open>ride\<close>
  is no column of the table. For a column outside \<open>col\<close> the branch ends in the
  ValueError of line 197 (\<open>data.apply(list)\<close> or \<open>col.index(ride)\<close>); the mean of such a
  column, which line 192 assigns to the local \<open>means\<close>, is not modelled.
\<close>

definition single_body :: "(nat list \<Rightarrow> nat list) \<Rightarrow> string \<Rightarrow> date \<Rightarrow> stmt list" where
  "single_body list_set ride d =
     select_rows d #
     (if ride \<notin> set col \<and> ride \<notin> set other_columns then [raise KeyError]
      else case index col ride of
             None \<Rightarrow> [new_line_figure, raise ValueError]
           | Some i \<Rightarrow>
               [hour_means (rides ! i), new_line_figure, add_line list_set (Some (name ! i)),
                year_means (rides ! i), year_list list_set, sort_years, new_bar_figure,
                add_bar None])"

text \<open>Lines 158-209: the body of \<open>update_charts(ride, date)\<close>.\<close>

definition update_charts_run :: "(nat list \<Rightarrow> nat list) \<Rightarrow> string \<Rightarrow> date \<Rightarrow> stmt" where
  "update_charts_run list_set ride d =
     run_stmts (if ride = ''All'' then all_body list_set d else single_body list_set ride d)"

text \<open>Line 209: \<open>return line_chart_figure, bar_chart_figure\<close>, unless an exception ended the call.\<close>

definition returned :: "error option \<times> py_state \<Rightarrow> error + (trace list \<times> trace list)" where
  "returned p = (case fst p of Some e \<Rightarrow> Inl e | None \<Rightarrow> Inr (st_line (snd p), st_bar (snd p)))"

text \<open>The points plotly draws for a trace: a NaN \<open>y\<close> has no marker.\<close>

definition points :: "trace \<Rightarrow> (nat \<times> val) list" where
  "points t = concat (map (\<lambda>(a, v). case v of None \<Rightarrow> [] | Some w \<Rightarrow> [(a, w)]) (zip (trace_x t) (trace_y t)))"

section \<open>The series as the specification describes them\<close>

definition non_null :: "'a option list \<Rightarrow> 'a list" where
  "non_null xs = concat (map (\<lambda>x. case x of None \<Rightarrow> [] | Some v \<Rightarrow> [v]) xs)"

definition arithmetic_mean :: "val list \<Rightarrow> val" where
  "arithmetic_mean vs = sum_list vs / of_nat (length vs)"

text \<open>The yearly series: each year of the rows, ascending, with the arithmetic mean of
  the ride's values of that year that are not null (null when there is none).\<close>

definition spec_yearly :: "row list \<Rightarrow> ride \<Rightarrow> (nat \<times> val option) list" where
  "spec_yearly data c =
     map (\<lambda>yr. (yr, let vs = non_null (map (get c) (filter (\<lambda>r. Year r = yr) data))
                    in if vs = [] then None else Some (arithmetic_mean vs)))
         (sorted_list_of_set (set (map Year data)))"

text \<open>The hourly series: a point for each hour that has a value that is not null, with
  the arithmetic mean of these values; no point for an hour whose values are all null.\<close>

definition spec_hourly :: "row list \<Rightarrow> ride \<Rightarrow> (nat \<times> val) list" where
  "spec_hourly data c =
     concat (map (\<lambda>h. let vs = non_null (map (get c) (filter (\<lambda>r. Hour r = h) data))
                       in if vs = [] then [] else [(h, arithmetic_mean vs)])
                 (sorted_list_of_set (set (map Hour data))))"

section \<open>Example tables\<close>

definition mk_row :: "timestamp \<Rightarrow> val option \<Rightarrow> val option \<Rightarrow> val option \<Rightarrow> val option \<Rightarrow> val option \<Rightarrow> row" where
  "mk_row t d e p s n = calendar (t, (((d, e), p), s), n)"

text \<open>Rows of two days, not yet sorted, with gaps and a closed-ride marker.\<close>

definition example_day :: "row list" where
  "example_day =
     [mk_row (2021, 6, 2, 9, 0, 0) (Some 5) None None None None,
      mk_row (2021, 6, 1, 12, 0, 0) (Some 20) None None None None,
      mk_row (2021, 6, 1, 10, 0, 0) None (Some 30) None None None,
      mk_row (2021, 6, 1, 13, 0, 0) None None None None None,
      mk_row (2021, 6, 1, 11, 0, 0) None (Some (- 999)) None None None]"

text \<open>The fourth of July of two years, at 7 and at 8 o'clock, and a row of another day;
  the table is sorted and backfilled.\<close>

definition example_july :: "row list" where
  "example_july =
     [mk_row (2021, 7, 4, 7, 0, 0) (Some 10) (Some 40) None None None,
      mk_row (2021, 7, 4, 8, 0, 0) (Some 30) None None None None,
      mk_row (2022, 7, 4, 7, 0, 0) (Some 20) (Some 15) None None None,
      mk_row (2022, 7, 4, 8, 0, 0) (Some 50) None None None None,
      mk_row (2022, 7, 5, 9, 0, 0) (Some 60) None None None None]"

text \<open>
  CPython keeps a set of at most four elements in a table of eight slots, a small
  natural number \<open>h\<close> in slot \<open>h mod 8\<close> when that slot is free, and iterates over
  the slots in order: \<open>list(set([7, 8]))\<close> is \<open>[8, 7]\<close>. This is the enumeration for
  such sets whose elements differ modulo 8.
\<close>

definition cpython_small_set :: "nat list \<Rightarrow> nat list" where
  "cpython_small_set xs = sort_key (\<lambda>h. h mod 8) (remdups xs)"

text \<open>Two csv files as read, with rows that have no posted time.\<close>

definition example_dino :: "(timestamp \<times> val option) list" where
  "example_dino = [((2021, 6, 1, 11, 0, 0), Some 25), ((2021, 6, 1, 10, 0, 0), Some (- 999)),
                   ((2021, 6, 1, 12, 0, 0), None)]"

definition example_everest :: "(timestamp \<times> val option) list" where
  "example_everest = [((2021, 6, 1, 11, 0, 0), Some 5), ((2021, 6, 1, 9, 0, 0), None)]"

text \<open>The first value of a list that is not null.\<close>

definition first_some :: "'a option list \<Rightarrow> 'a option" where
  "first_some xs = (case List.find (\<lambda>x. x \<noteq> None) xs of None \<Rightarrow> None | Some y \<Rightarrow> y)"

section \<open>Columns and the backfill\<close>

lemma get_put: "get c (put c' v r) = (if c = c' then v else get c r)"
  by (cases c; cases c') simp_all

lemma put_frame:
  "datetime (put c v r) = datetime r" "Year (put c v r) = Year r" "Month (put c v r) = Month r"
  "Day (put c v r) = Day r" "Hour (put c v r) = Hour r"
  by (cases c; simp)+

lemma day_key_put: "day_key (put c v r) = day_key r"
  by (simp add: day_key_def put_frame)

lemma length_bfill: "length (bfill xs) = length xs"
  by (induction xs rule: bfill.induct) simp_all

lemma bfill_append_drop: "drop (length xs) (bfill (xs @ ys)) = bfill ys"
  by (induction xs rule: bfill.induct) simp_all

lemma bfill_append_nth: "ys \<noteq> [] \<Longrightarrow> bfill (xs @ ys) ! length xs = bfill ys ! 0"
  using bfill_append_drop [of xs ys]
  by (metis length_bfill add.right_neutral length_append nth_drop le_add1)

lemma bfill_head: "bfill (x # xs) ! 0 = (case x of Some v \<Rightarrow> Some v | None \<Rightarrow> first_some xs)"
proof -
  have "(case bfill xs of [] \<Rightarrow> None | y # ys \<Rightarrow> y) = first_some xs" for xs :: "'a option list"
    by (induction xs rule: bfill.induct) (simp_all add: first_some_def)
  then show ?thesis by (cases x) simp_all
qed

lemma first_some_Cons: "first_some (x # xs) = (case x of Some v \<Rightarrow> Some v | None \<Rightarrow> first_some xs)"
  by (cases x) (simp_all add: first_some_def)

lemma first_some_Nil: "first_some [] = None"
  by (simp add: first_some_def)

lemma first_some_upt_Some:
  "first_some (map f (filter P [a..<n])) = Some v \<longleftrightarrow>
     (\<exists>j. a \<le> j \<and> j < n \<and> P j \<and> f j = Some v \<and> (\<forall>k. a \<le> k \<and> k < j \<and> P k \<longrightarrow> f k = None))"
proof (induction "n - a" arbitrary: a)
  case 0
  then show ?case by (simp add: first_some_Nil)
next
  case (Suc m)
  then have an: "a < n" and m: "m = n - Suc a" by simp_all
  have up: "[a..<n] = a # [Suc a..<n]" using an by (simp add: upt_conv_Cons)
  note IH = Suc.hyps(1) [OF m]
  show ?case
  proof (cases "P a \<and> f a \<noteq> None")
    case True
    then obtain w where w: "f a = Some w" by auto
    have "first_some (map f (filter P [a..<n])) = Some w"
      using True w by (simp add: up first_some_Cons)
    moreover have "(\<exists>j. a \<le> j \<and> j < n \<and> P j \<and> f j = Some v \<and> (\<forall>k. a \<le> k \<and> k < j \<and> P k \<longrightarrow> f k = None)) \<longleftrightarrow> w = v"
    proof
      assume "\<exists>j. a \<le> j \<and> j < n \<and> P j \<and> f j = Some v \<and> (\<forall>k. a \<le> k \<and> k < j \<and> P k \<longrightarrow> f k = None)"
      then obtain j where j: "a \<le> j" "j < n" "P j" "f j = Some v" "\<forall>k. a \<le> k \<and> k < j \<and> P k \<longrightarrow> f k = None"
        by blast
      have "j = a"
      proof (rule ccontr)
        assume "j \<noteq> a"
        then have "a < j" using j(1) by simp
        then have "f a = None" using j(5) True by simp
        then show False using w by simp
      qed
      then show "w = v" using j(4) w by simp
    next
      assume "w = v"
      then show "\<exists>j. a \<le> j \<and> j < n \<and> P j \<and> f j = Some v \<and> (\<forall>k. a \<le> k \<and> k < j \<and> P k \<longrightarrow> f k = None)"
        using an True w by (intro exI [of _ a]) auto
    qed
    ultimately show ?thesis by simp
  next
    case False
    have "first_some (map f (filter P [a..<n])) = first_some (map f (filter P [Suc a..<n]))"
      using False by (auto simp add: up first_some_Cons)
    moreover have "(\<exists>j. a \<le> j \<and> j < n \<and> P j \<and> f j = Some v \<and> (\<forall>k. a \<le> k \<and> k < j \<and> P k \<longrightarrow> f k = None))
       \<longleftrightarrow> (\<exists>j. Suc a \<le> j \<and> j < n \<and> P j \<and> f j = Some v \<and> (\<forall>k. Suc a \<le> k \<and> k < j \<and> P k \<longrightarrow> f k = None))"
      (is "?L \<longleftrightarrow> ?R")
    proof
      assume ?L
      then obtain j where j: "a \<le> j" "j < n" "P j" "f j = Some v" "\<forall>k. a \<le> k \<and> k < j \<and> P k \<longrightarrow> f k = None"
        by blast
      have "j \<noteq> a" using False j(3,4) by auto
      then have "Suc a \<le> j" using j(1) by simp
      moreover have "\<forall>k. Suc a \<le> k \<and> k < j \<and> P k \<longrightarrow> f k = None" using j(5) by simp
      ultimately show ?R using j by blast
    next
      assume ?R
      then obtain j where j: "Suc a \<le> j" "j < n" "P j" "f j = Some v" "\<forall>k. Suc a \<le> k \<and> k < j \<and> P k \<longrightarrow> f k = None"
        by blast
      have "\<forall>k. a \<le> k \<and> k < j \<and> P k \<longrightarrow> f k = None"
      proof (intro allI impI)
        fix k assume k: "a \<le> k \<and> k < j \<and> P k"
        show "f k = None"
        proof (cases "k = a")
          case True then show ?thesis using False k by auto
        next
          case False then show ?thesis using j(5) k by simp
        qed
      qed
      moreover have "a \<le> j" using j(1) by simp
      ultimately show ?L using j by blast
    qed
    ultimately show ?thesis using IH by simp
  qed
qed

lemma first_some_upt_None:
  "first_some (map f (filter P [a..<n])) = None \<longleftrightarrow> (\<forall>j. a \<le> j \<and> j < n \<and> P j \<longrightarrow> f j = None)"
proof
  assume L: "first_some (map f (filter P [a..<n])) = None"
  show "\<forall>j. a \<le> j \<and> j < n \<and> P j \<longrightarrow> f j = None"
  proof (rule ccontr)
    assume "\<not> (\<forall>j. a \<le> j \<and> j < n \<and> P j \<longrightarrow> f j = None)"
    then have ex: "\<exists>j. a \<le> j \<and> j < n \<and> P j \<and> f j \<noteq> None" by blast
    define j where "j = (LEAST j. a \<le> j \<and> j < n \<and> P j \<and> f j \<noteq> None)"
    have j: "a \<le> j \<and> j < n \<and> P j \<and> f j \<noteq> None"
      unfolding j_def using ex by (rule LeastI_ex)
    have least: "\<And>k. a \<le> k \<and> k < n \<and> P k \<and> f k \<noteq> None \<Longrightarrow> j \<le> k"
      unfolding j_def by (rule Least_le)
    obtain w where w: "f j = Some w" using j by auto
    have "\<forall>k. a \<le> k \<and> k < j \<and> P k \<longrightarrow> f k = None"
      using least j by (metis less_trans not_le)
    then have "first_some (map f (filter P [a..<n])) = Some w"
      using j w first_some_upt_Some [of f P a n w] by blast
    then show False using L by simp
  qed
next
  assume R: "\<forall>j. a \<le> j \<and> j < n \<and> P j \<longrightarrow> f j = None"
  show "first_some (map f (filter P [a..<n])) = None"
  proof (cases "first_some (map f (filter P [a..<n]))")
    case None then show ?thesis .
  next
    case (Some w)
    then show ?thesis using R first_some_upt_Some [of f P a n w] by auto
  qed
qed

lemma filter_upt_split:
  assumes "i < n" "P i"
  shows "filter P [0..<n] = filter P [0..<i] @ i # filter P [Suc i..<n]"
proof -
  have "[0..<n] = [0..<i] @ i # [Suc i..<n]"
    using assms(1) by (metis less_imp_add_positive upt_add_eq_append upt_conv_Cons zero_le)
  then show ?thesis using assms(2) by simp
qed

lemma group_bfill_nth:
  assumes "i < length ks"
  shows "group_bfill ks vs ! i =
     (case vs ! i of Some v \<Rightarrow> Some v
      | None \<Rightarrow> first_some (map (\<lambda>j. vs ! j) (filter (\<lambda>j. ks ! j = ks ! i) [Suc i..<length ks])))"
proof -
  let ?P = "\<lambda>j. ks ! j = ks ! i"
  have "group_bfill ks vs ! i =
      bfill (map (\<lambda>j. vs ! j) (filter ?P [0..<length ks])) ! length (filter ?P [0..<i])"
    using assms by (simp add: group_bfill_def)
  also have "filter ?P [0..<length ks] = filter ?P [0..<i] @ i # filter ?P [Suc i..<length ks]"
    using assms by (intro filter_upt_split) simp_all
  also have "bfill (map (\<lambda>j. vs ! j) (filter ?P [0..<i] @ i # filter ?P [Suc i..<length ks]))
        ! length (filter ?P [0..<i])
      = bfill (vs ! i # map (\<lambda>j. vs ! j) (filter ?P [Suc i..<length ks])) ! 0"
    using bfill_append_nth [of "vs ! i # map (\<lambda>j. vs ! j) (filter ?P [Suc i..<length ks])"
        "map (\<lambda>j. vs ! j) (filter ?P [0..<i])"] by simp
  finally show ?thesis by (simp only: bfill_head)
qed

lemma length_group_bfill: "length (group_bfill ks vs) = length ks"
  by (simp add: group_bfill_def)

lemma length_bfill_col: "length (bfill_col c df) = length df"
  by (simp add: bfill_col_def length_group_bfill)

lemma map_get_bfill_col:
  "map (get c') (bfill_col c df) =
     (if c' = c then group_bfill (map day_key df) (map (get c) df) else map (get c') df)"
  by (rule nth_equalityI)
     (simp_all add: bfill_col_def length_group_bfill get_put)

lemma map_day_key_bfill_col: "map day_key (bfill_col c df) = map day_key df"
  by (rule nth_equalityI) (simp_all add: bfill_col_def length_group_bfill day_key_put)

lemma map_frame_bfill_col:
  "map datetime (bfill_col c df) = map datetime df"
  "map Year (bfill_col c df) = map Year df"
  "map Month (bfill_col c df) = map Month df"
  "map Day (bfill_col c df) = map Day df"
  "map Hour (bfill_col c df) = map Hour df"
  by (rule nth_equalityI; simp add: bfill_col_def length_group_bfill put_frame)+

lemma fold_bfill_col_frame:
  "length (fold bfill_col cs df) = length df"
  "map day_key (fold bfill_col cs df) = map day_key df"
  "map datetime (fold bfill_col cs df) = map datetime df"
  "map Year (fold bfill_col cs df) = map Year df"
  "map Month (fold bfill_col cs df) = map Month df"
  "map Day (fold bfill_col cs df) = map Day df"
  "map Hour (fold bfill_col cs df) = map Hour df"
  by (induction cs arbitrary: df; simp add: length_bfill_col map_day_key_bfill_col map_frame_bfill_col)+

lemma fold_bfill_col_get:
  "distinct cs \<Longrightarrow> map (get c) (fold bfill_col cs df) =
     (if c \<in> set cs then group_bfill (map day_key df) (map (get c) df) else map (get c) df)"
proof (induction cs arbitrary: df)
  case Nil
  then show ?case by simp
next
  case (Cons a cs)
  then show ?case
    by (auto simp add: map_get_bfill_col map_day_key_bfill_col)
qed

lemma backfill_get:
  "map (get c) (backfill df) = group_bfill (map day_key df) (map (get c) df)"
proof -
  have "distinct rides" "c \<in> set rides"
    by (cases c; simp add: rides_def)+
  then show ?thesis
    unfolding backfill_def by (simp add: fold_bfill_col_get)
qed

lemma backfill_get_nth:
  assumes "i < length df"
  shows "get c (backfill df ! i) =
     (case get c (df ! i) of Some v \<Rightarrow> Some v
      | None \<Rightarrow> first_some (map (\<lambda>j. get c (df ! j))
           (filter (\<lambda>j. day_key (df ! j) = day_key (df ! i)) [Suc i..<length df])))"
proof -
  have len: "length (backfill df) = length df"
    unfolding backfill_def by (rule fold_bfill_col_frame(1))
  have "get c (backfill df ! i) = map (get c) (backfill df) ! i"
    using assms len by simp
  also have "\<dots> = group_bfill (map day_key df) (map (get c) df) ! i"
    by (simp only: backfill_get)
  also have "\<dots> = (case map (get c) df ! i of Some v \<Rightarrow> Some v
      | None \<Rightarrow> first_some (map (\<lambda>j. map (get c) df ! j)
           (filter (\<lambda>j. map day_key df ! j = map day_key df ! i) [Suc i..<length (map day_key df)])))"
    using assms by (intro group_bfill_nth) simp
  also have "map (\<lambda>j. map (get c) df ! j)
           (filter (\<lambda>j. map day_key df ! j = map day_key df ! i) [Suc i..<length (map day_key df)])
      = map (\<lambda>j. get c (df ! j))
           (filter (\<lambda>j. day_key (df ! j) = day_key (df ! i)) [Suc i..<length df])"
    using assms by (auto intro!: map_cong filter_cong)
  finally show ?thesis using assms by simp
qed

lemma filter_key_distinct:
  "distinct (map fst xs) \<Longrightarrow>
     map snd (filter (\<lambda>p. fst p = k) xs) = (case map_of xs k of None \<Rightarrow> [] | Some a \<Rightarrow> [a])"
proof (induction xs)
  case Nil
  then show ?case by simp
next
  case (Cons p xs)
  obtain k' a where p: "p = (k', a)" by (cases p)
  show ?case
  proof (cases "k' = k")
    case True
    then have "k \<notin> fst ` set xs" using Cons.prems p by auto
    then have "filter (\<lambda>p. fst p = k) xs = []" by (auto simp add: filter_empty_conv)
    then show ?thesis using True p by simp
  next
    case False
    then show ?thesis using Cons p by simp
  qed
qed

lemma merge_rows_distinct:
  assumes "distinct (map fst left)" "distinct (map fst right)"
    and "k \<in> fst ` set left \<union> fst ` set right"
  shows "merge_rows left right k = [(k, map_of left k, map_of right k)]"
proof -
  have "map_of left k \<noteq> None \<or> map_of right k \<noteq> None"
    using assms(3) by (auto simp add: map_of_eq_None_iff)
  then show ?thesis
    by (auto simp add: merge_rows_def filter_key_distinct [OF assms(1)] filter_key_distinct [OF assms(2)]
        split: option.splits)
qed

lemma merge_outer_distinct:
  assumes "distinct (map fst left)" "distinct (map fst right)"
  shows "merge_outer left right =
     map (\<lambda>k. (k, map_of left k, map_of right k)) (sort (remdups (map fst left @ map fst right)))"
proof -
  have e: "map (merge_rows left right) (sort (remdups (map fst left @ map fst right)))
      = map (\<lambda>k. [(k, map_of left k, map_of right k)]) (sort (remdups (map fst left @ map fst right)))"
    by (rule map_cong) (auto simp add: merge_rows_distinct [OF assms])
  show ?thesis
    unfolding merge_outer_def e by simp
qed

lemma map_of_keyed:
  "map_of (map (\<lambda>k. (k, f k)) ks) k = (if k \<in> set ks then Some (f k) else None)"
  by (induction ks) auto

lemma merge_stage:
  assumes L: "left = map (\<lambda>k. (k, F k)) ks" and dk: "distinct ks"
    and dr: "distinct (map fst right)"
    and nulls: "\<And>k. k \<notin> set ks \<Longrightarrow> F k = nulls"
  shows "map (fill_left nulls) (merge_outer left right) =
     map (\<lambda>k. (k, F k, map_of right k)) (sort (remdups (ks @ map fst right)))"
proof -
  have fstL: "map fst left = ks" by (simp add: L comp_def)
  have mo: "merge_outer left right =
      map (\<lambda>k. (k, map_of left k, map_of right k)) (sort (remdups (ks @ map fst right)))"
    using merge_outer_distinct [of left right] dk dr fstL by simp
  have "(case map_of left k of None \<Rightarrow> nulls | Some a \<Rightarrow> a) = F k" for k
    using nulls [of k] by (simp add: L map_of_keyed)
  then show ?thesis
    by (simp add: mo fill_left_def)
qed

lemma merge_all_distinct:
  assumes "distinct (map fst dino)" "distinct (map fst everest)" "distinct (map fst passage)"
    "distinct (map fst safari)" "distinct (map fst navi)"
  shows "\<exists>ks. distinct ks \<and>
      set ks = fst ` set dino \<union> fst ` set everest \<union> fst ` set passage \<union> fst ` set safari \<union> fst ` set navi \<and>
      merge_all dino everest passage safari navi =
        map (\<lambda>k. (k, (((map_of dino k, map_of everest k), map_of passage k), map_of safari k), map_of navi k)) ks"
proof -
  define ks1 where "ks1 = sort (remdups (map fst dino @ map fst everest))"
  define ks2 where "ks2 = sort (remdups (ks1 @ map fst passage))"
  define ks3 where "ks3 = sort (remdups (ks2 @ map fst safari))"
  define ks4 where "ks4 = sort (remdups (ks3 @ map fst navi))"
  define d1 where "d1 = merge_outer dino everest"
  define d2 where "d2 = map (fill_left (None, None)) (merge_outer d1 passage)"
  define d3 where "d3 = map (fill_left ((None, None), None)) (merge_outer d2 safari)"
  define d4 where "d4 = map (fill_left (((None, None), None), None)) (merge_outer d3 navi)"
  have s1: "set ks1 = fst ` set dino \<union> fst ` set everest" and k1: "distinct ks1"
    by (simp_all add: ks1_def)
  have s2: "set ks2 = set ks1 \<union> fst ` set passage" and k2: "distinct ks2"
    by (simp_all add: ks2_def)
  have s3: "set ks3 = set ks2 \<union> fst ` set safari" and k3: "distinct ks3"
    by (simp_all add: ks3_def)
  have s4: "set ks4 = set ks3 \<union> fst ` set navi" and k4: "distinct ks4"
    by (simp_all add: ks4_def)
  have none: "k \<notin> fst ` set xs \<Longrightarrow> map_of xs k = None" for k and xs :: "(timestamp \<times> val) list"
    by (simp add: map_of_eq_None_iff)
  have e1: "d1 = map (\<lambda>k. (k, map_of dino k, map_of everest k)) ks1"
    unfolding d1_def ks1_def using assms(1,2) by (rule merge_outer_distinct)
  have e2: "d2 = map (\<lambda>k. (k, (map_of dino k, map_of everest k), map_of passage k)) ks2"
    unfolding d2_def ks2_def
    by (rule merge_stage [OF e1 k1 assms(3)]) (simp add: s1 none)
  have e3: "d3 = map (\<lambda>k. (k, ((map_of dino k, map_of everest k), map_of passage k), map_of safari k)) ks3"
    unfolding d3_def ks3_def
    by (rule merge_stage [OF e2 k2 assms(4)]) (simp add: s2 s1 none)
  have e4: "d4 = map (\<lambda>k. (k, (((map_of dino k, map_of everest k), map_of passage k), map_of safari k), map_of navi k)) ks4"
    unfolding d4_def ks4_def
    by (rule merge_stage [OF e3 k3 assms(5)]) (simp add: s3 s2 s1 none)
  have "merge_all dino everest passage safari navi = d4"
    by (simp add: merge_all_def d4_def d3_def d2_def d1_def)
  then show ?thesis
    using e4 k4 s4 s3 s2 s1 by (intro exI [of _ ks4]) simp
qed

text \<open>
  Claim C2. When the timestamps of each ride's cleaned records are pairwise
  distinct, the table that the chain of outer joins produces has exactly one row
  for every timestamp of any ride and no other row; each ride column of a row
  holds that ride's value at the row's timestamp, and is null when the ride has
  no record at that timestamp.
\<close>

theorem unified_one_row_per_timestamp:
  assumes "distinct (map fst dino)" "distinct (map fst everest)" "distinct (map fst passage)"
    "distinct (map fst safari)" "distinct (map fst navi)"
  defines "U \<equiv> unified dino everest passage safari navi"
  shows "distinct (map datetime U) \<and>
     set (map datetime U) =
       fst ` set dino \<union> fst ` set everest \<union> fst ` set passage \<union> fst ` set safari \<union> fst ` set navi \<and>
     (\<forall>r \<in> set U.
        SPOSTMIN_dino r = map_of dino (datetime r) \<and>
        SPOSTMIN_everest r = map_of everest (datetime r) \<and>
        SPOSTMIN_passage r = map_of passage (datetime r) \<and>
        SPOSTMIN_safari r = map_of safari (datetime r) \<and>
        SPOSTMIN_navi r = map_of navi (datetime r)) \<and>
     (\<forall>r \<in> set U.
        (datetime r \<notin> fst ` set dino \<longrightarrow> SPOSTMIN_dino r = None) \<and>
        (datetime r \<notin> fst ` set everest \<longrightarrow> SPOSTMIN_everest r = None) \<and>
        (datetime r \<notin> fst ` set passage \<longrightarrow> SPOSTMIN_passage r = None) \<and>
        (datetime r \<notin> fst ` set safari \<longrightarrow> SPOSTMIN_safari r = None) \<and>
        (datetime r \<notin> fst ` set navi \<longrightarrow> SPOSTMIN_navi r = None))"
proof -
  obtain ks where ks: "distinct ks"
      "set ks = fst ` set dino \<union> fst ` set everest \<union> fst ` set passage \<union> fst ` set safari \<union> fst ` set navi"
      "merge_all dino everest passage safari navi =
        map (\<lambda>k. (k, (((map_of dino k, map_of everest k), map_of passage k), map_of safari k), map_of navi k)) ks"
    using merge_all_distinct [OF assms(1-5)] by blast
  have U: "U = map (\<lambda>k. calendar (k, (((map_of dino k, map_of everest k), map_of passage k), map_of safari k), map_of navi k)) ks"
    by (simp add: U_def unified_def ks(3))
  have dt: "map datetime U = ks"
    by (simp add: U comp_def calendar_def)
  have vals: "\<forall>r \<in> set U.
        SPOSTMIN_dino r = map_of dino (datetime r) \<and>
        SPOSTMIN_everest r = map_of everest (datetime r) \<and>
        SPOSTMIN_passage r = map_of passage (datetime r) \<and>
        SPOSTMIN_safari r = map_of safari (datetime r) \<and>
        SPOSTMIN_navi r = map_of navi (datetime r)"
    by (auto simp add: U calendar_def)
  have nulls: "\<forall>r \<in> set U.
        (datetime r \<notin> fst ` set dino \<longrightarrow> SPOSTMIN_dino r = None) \<and>
        (datetime r \<notin> fst ` set everest \<longrightarrow> SPOSTMIN_everest r = None) \<and>
        (datetime r \<notin> fst ` set passage \<longrightarrow> SPOSTMIN_passage r = None) \<and>
        (datetime r \<notin> fst ` set safari \<longrightarrow> SPOSTMIN_safari r = None) \<and>
        (datetime r \<notin> fst ` set navi \<longrightarrow> SPOSTMIN_navi r = None)"
    using vals by (simp add: map_of_eq_None_iff)
  show ?thesis
    using dt ks(1,2) vals nulls by simp
qed

text \<open>
  Claim C1. The rows are sorted ascending by timestamp before the backfill. In the
  sorted table \<open>S\<close>, a null of a ride's column at row \<open>i\<close> becomes the value \<open>v\<close>
  exactly when \<open>v\<close> is the value of the first later row of the same (year, month,
  day) group that is not null in this column, and it stays null exactly when every
  later row of that day is null in this column.
\<close>

theorem backfill_next_value_same_day:
  fixes tbl :: "row list" and c :: ride
  defines "S \<equiv> sort_values tbl"
  defines "B \<equiv> backfill S"
  shows "mset S = mset tbl \<and> sorted (map datetime S) \<and> length B = length S \<and>
    (\<forall>i<length S. get c (S ! i) = None \<longrightarrow>
       (\<forall>v. get c (B ! i) = Some v \<longleftrightarrow>
          (\<exists>j. i < j \<and> j < length S \<and> day_key (S ! j) = day_key (S ! i) \<and> get c (S ! j) = Some v \<and>
             (\<forall>k. i < k \<and> k < j \<and> day_key (S ! k) = day_key (S ! i) \<longrightarrow> get c (S ! k) = None))) \<and>
       (get c (B ! i) = None \<longleftrightarrow>
          (\<forall>j. i < j \<and> j < length S \<and> day_key (S ! j) = day_key (S ! i) \<longrightarrow> get c (S ! j) = None)))"
proof (intro conjI allI impI)
  show "mset S = mset tbl" by (simp add: S_def sort_values_def)
  show "sorted (map datetime S)" by (simp add: S_def sort_values_def)
  show "length B = length S" by (simp add: B_def backfill_def fold_bfill_col_frame(1))
next
  fix i v
  assume i: "i < length S" and n: "get c (S ! i) = None"
  have "get c (B ! i) = first_some (map (\<lambda>j. get c (S ! j))
           (filter (\<lambda>j. day_key (S ! j) = day_key (S ! i)) [Suc i..<length S]))"
    using backfill_get_nth [OF i, of c] n by (simp add: B_def)
  then show "get c (B ! i) = Some v \<longleftrightarrow>
          (\<exists>j. i < j \<and> j < length S \<and> day_key (S ! j) = day_key (S ! i) \<and> get c (S ! j) = Some v \<and>
             (\<forall>k. i < k \<and> k < j \<and> day_key (S ! k) = day_key (S ! i) \<longrightarrow> get c (S ! k) = None))"
    by (simp add: first_some_upt_Some Suc_le_eq)
next
  fix i
  assume i: "i < length S" and n: "get c (S ! i) = None"
  have "get c (B ! i) = first_some (map (\<lambda>j. get c (S ! j))
           (filter (\<lambda>j. day_key (S ! j) = day_key (S ! i)) [Suc i..<length S]))"
    using backfill_get_nth [OF i, of c] n by (simp add: B_def)
  then show "get c (B ! i) = None \<longleftrightarrow>
          (\<forall>j. i < j \<and> j < length S \<and> day_key (S ! j) = day_key (S ! i) \<longrightarrow> get c (S ! j) = None)"
    by (simp add: first_some_upt_None Suc_le_eq)
qed

lemma sort_example: "sort_values example_day =
     [mk_row (2021, 6, 1, 10, 0, 0) None (Some 30) None None None,
      mk_row (2021, 6, 1, 11, 0, 0) None (Some (- 999)) None None None,
      mk_row (2021, 6, 1, 12, 0, 0) (Some 20) None None None None,
      mk_row (2021, 6, 1, 13, 0, 0) None None None None None,
      mk_row (2021, 6, 2, 9, 0, 0) (Some 5) None None None None]"
  by (simp add: sort_values_def example_day_def mk_row_def calendar_def)

theorem backfill_next_value_same_day_witness:
  "get Dino (sort_values example_day ! 0) = None \<and>
   get Dino (backfill (sort_values example_day) ! 0) = Some 20 \<and>
   get Dino (sort_values example_day ! 3) = None \<and>
   get Dino (backfill (sort_values example_day) ! 3) = None"
proof -
  let ?S = "sort_values example_day"
  note T = backfill_next_value_same_day [of example_day Dino]
  have len: "length ?S = 5" by (simp add: sort_values_def example_day_def)
  have r: "get Dino (?S ! 0) = None" "get Dino (?S ! 1) = None" "get Dino (?S ! 2) = Some 20"
    "get Dino (?S ! 3) = None" "get Dino (?S ! 4) = Some 5"
    "day_key (?S ! 0) = (2021, 6, 1)" "day_key (?S ! 1) = (2021, 6, 1)" "day_key (?S ! 2) = (2021, 6, 1)"
    "day_key (?S ! 3) = (2021, 6, 1)" "day_key (?S ! 4) = (2021, 6, 2)"
    by (simp_all add: sort_example mk_row_def calendar_def day_key_def dt_year_def dt_month_def dt_day_def)
  have "\<exists>j>0. j < length ?S \<and> day_key (?S ! j) = day_key (?S ! 0) \<and> get Dino (?S ! j) = Some 20 \<and>
      (\<forall>k. 0 < k \<and> k < j \<and> day_key (?S ! k) = day_key (?S ! 0) \<longrightarrow> get Dino (?S ! k) = None)"
  proof (intro exI [of _ 2] conjI allI impI)
    fix k assume "0 < k \<and> k < 2 \<and> day_key (?S ! k) = day_key (?S ! 0)"
    then have "k = 1" by simp
    then show "get Dino (?S ! k) = None" using r by simp
  qed (use len r in simp_all)
  then have a: "get Dino (backfill ?S ! 0) = Some 20"
    using T r(1) len by simp
  have "\<forall>j. 3 < j \<and> j < length ?S \<and> day_key (?S ! j) = day_key (?S ! 3) \<longrightarrow> get Dino (?S ! j) = None"
  proof (intro allI impI)
    fix j assume j: "3 < j \<and> j < length ?S \<and> day_key (?S ! j) = day_key (?S ! 3)"
    then have "j = 4" using len by simp
    then show "get Dino (?S ! j) = None" using j r by simp
  qed
  then have b: "get Dino (backfill ?S ! 3) = None"
    using T r(4) len by simp
  show ?thesis using a b r by simp
qed

section \<open>The series of the callback\<close>

lemma fold_sum_non_null:
  "fold (\<lambda>x acc. case x of None \<Rightarrow> acc | Some v \<Rightarrow> acc + v) xs a = a + sum_list (non_null xs)"
  for a :: val
  by (induction xs arbitrary: a) (auto simp add: non_null_def split: option.splits)

lemma length_filter_non_null: "length (filter (\<lambda>x. x \<noteq> None) xs) = length (non_null xs)"
  by (induction xs) (auto simp add: non_null_def)

lemma mean_non_null:
  "mean xs = (let vs = non_null xs in if vs = [] then None else Some (arithmetic_mean vs))"
  unfolding mean_def fold_sum_non_null length_filter_non_null arithmetic_mean_def
  by (simp add: Let_def)

lemma sort_set_iteration:
  assumes "set_iteration list_set"
  shows "sort (list_set xs) = sort (remdups xs)"
proof -
  have "distinct (list_set xs)" "set (list_set xs) = set xs"
    using assms by (simp_all add: set_iteration_def)
  then show ?thesis
    by (intro sorted_distinct_set_unique) simp_all
qed

lemma sorted_list_of_set_image:
  "sorted_list_of_set (f ` set xs) = sort (remdups (map f xs))"
  using sorted_list_of_set_sort_remdups [of "map f xs"] by simp

lemma zip_map_self: "zip xs (map f xs) = map (\<lambda>x. (x, f x)) xs"
  by (induction xs) simp_all

lemma bar_trace_spec:
  assumes "set_iteration list_set"
  shows "zip (trace_x (bar_trace list_set data c l)) (trace_y (bar_trace list_set data c l)) = spec_yearly data c"
    and "length (trace_x (bar_trace list_set data c l)) = length (trace_y (bar_trace list_set data c l))"
    and "trace_x (bar_trace list_set data c l) = sorted_list_of_set (Year ` set data)"
  by (simp_all add: bar_trace_def sort_set_iteration [OF assms] groupby_mean_def zip_map_self
      spec_yearly_def mean_non_null sorted_list_of_set_image)

lemma index_Some: "index xs a = Some i \<Longrightarrow> i < length xs \<and> xs ! i = a"
  by (induction xs arbitrary: i) (auto split: if_splits)


lemma index_distinct: "distinct xs \<Longrightarrow> i < length xs \<Longrightarrow> index xs (xs ! i) = Some i"
proof (induction xs arbitrary: i)
  case Nil
  then show ?case by simp
next
  case (Cons x xs)
  then show ?case by (cases i) auto
qed

lemma col_facts: "distinct col" "length col = 5" "''All'' \<notin> set col" "length rides = 5" "length name = 5"
  by (simp_all add: col_def rides_def name_def)

lemma add_traces_rows:
  assumes "data \<noteq> []"
  shows "add_traces list_set data rs figs =
     Inr (fst figs @ map (\<lambda>r. line_trace list_set data (rides ! r) (Some (name ! r))) rs,
          snd figs @ map (\<lambda>r. bar_trace list_set data (rides ! r) (Some (name ! r))) rs)"
  using assms by (induction rs arbitrary: figs) (simp_all add: apply_list_def)

lemma update_charts_col:
  assumes "i < length col" "day_rows df d \<noteq> []"
  shows "update_charts list_set df (col ! i) d =
     Inr ([line_trace list_set (day_rows df d) (rides ! i) (Some (name ! i))],
          [bar_trace list_set (day_rows df d) (rides ! i) None])"
proof -
  have "col ! i \<noteq> ''All''" using assms(1) col_facts(3) by (metis nth_mem)
  moreover have "index col (col ! i) = Some i"
    using assms(1) col_facts(1) by (rule index_distinct [rotated])
  moreover have "col ! i \<in> set col" using assms(1) by simp
  ultimately show ?thesis using assms(2) by (simp add: update_charts_def Let_def apply_list_def)
qed

lemma update_charts_All:
  assumes "day_rows df d \<noteq> []"
  shows "update_charts list_set df ''All'' d =
     Inr (map (\<lambda>r. line_trace list_set (day_rows df d) (rides ! r) (Some (name ! r))) [0..<length col],
          map (\<lambda>r. bar_trace list_set (day_rows df d) (rides ! r) (Some (name ! r))) [0..<length col])"
  by (simp add: update_charts_def Let_def add_traces_rows [OF assms])

lemma update_charts_no_rows:
  assumes "day_rows df d = []"
  shows "\<exists>e. update_charts list_set df ride d = Inl e"
proof (cases "ride = ''All''")
  case True
  have "[0..<length col] = 0 # [1..<length col]"
    by (simp add: col_facts upt_rec)
  then show ?thesis
    using True assms by (simp add: update_charts_def Let_def apply_list_def)
next
  case False
  then show ?thesis
    using assms by (simp add: update_charts_def Let_def apply_list_def)
qed

text \<open>
  Claim C6. For each of the five ride selectors and for "All", on every date: the
  bar of a ride that the callback returns pairs every year of the filtered rows,
  in ascending order, with the arithmetic mean of the ride's values of that year
  that are not null, and the callback returns whenever the day and month of the
  date have rows. The values 10, null, 20 have the mean 15.
\<close>

theorem yearly_series_mean_by_year:
  fixes df :: "row list" and d :: date
  assumes "set_iteration list_set"
  defines "yearly \<equiv> \<lambda>bar c. zip (trace_x bar) (trace_y bar) = spec_yearly (day_rows df d) c \<and>
      length (trace_y bar) = length (trace_x bar) \<and>
      trace_x bar = sorted_list_of_set (Year ` set (day_rows df d))"
  shows "(\<forall>i<length col. \<forall>lines bars. update_charts list_set df (col ! i) d = Inr (lines, bars) \<longrightarrow>
            (\<exists>line bar. lines = [line] \<and> bars = [bar] \<and> yearly bar (rides ! i))) \<and>
         (\<forall>lines bars. update_charts list_set df ''All'' d = Inr (lines, bars) \<longrightarrow>
            length bars = length col \<and> (\<forall>i<length col. yearly (bars ! i) (rides ! i))) \<and>
         (day_rows df d \<noteq> [] \<longrightarrow>
            (\<forall>i<length col. \<exists>lines bars. update_charts list_set df (col ! i) d = Inr (lines, bars)) \<and>
            (\<exists>lines bars. update_charts list_set df ''All'' d = Inr (lines, bars))) \<and>
         mean [Some 10, None, Some 20] = Some 15"
proof -
  have rows: "day_rows df d \<noteq> []" if "update_charts list_set df ride d = Inr figs" for ride figs
    using that update_charts_no_rows [of df d list_set ride] by auto
  have single: "\<exists>line bar. lines = [line] \<and> bars = [bar] \<and> yearly bar (rides ! i)"
    if "i < length col" "update_charts list_set df (col ! i) d = Inr (lines, bars)" for i lines bars
  proof -
    have "update_charts list_set df (col ! i) d =
       Inr ([line_trace list_set (day_rows df d) (rides ! i) (Some (name ! i))],
            [bar_trace list_set (day_rows df d) (rides ! i) None])"
      using that(1) rows [OF that(2)] by (rule update_charts_col)
    then show ?thesis
      unfolding yearly_def using that(2) bar_trace_spec [OF assms(1)] by simp
  qed
  have all: "length bars = length col \<and> (\<forall>i<length col. yearly (bars ! i) (rides ! i))"
    if "update_charts list_set df ''All'' d = Inr (lines, bars)" for lines bars
    unfolding yearly_def using that bar_trace_spec [OF assms(1)]
    by (auto simp add: update_charts_All [OF rows [OF that]])
  have ret: "(\<forall>i<length col. \<exists>lines bars. update_charts list_set df (col ! i) d = Inr (lines, bars)) \<and>
            (\<exists>lines bars. update_charts list_set df ''All'' d = Inr (lines, bars))"
    if "day_rows df d \<noteq> []"
    using that by (simp add: update_charts_col update_charts_All)
  have ex: "mean [Some 10, None, Some 20] = Some 15"
    by (simp add: mean_def)
  show ?thesis
    using single all ret ex by blast
qed

lemma points_keyed:
  "concat (map (\<lambda>(a, v). case v of None \<Rightarrow> [] | Some w \<Rightarrow> [(a, w)]) (zip ks (map f ks)))
     = concat (map (\<lambda>k. case f k of None \<Rightarrow> [] | Some w \<Rightarrow> [(k, w)]) ks)"
  by (induction ks) simp_all

lemma line_trace_ascending:
  assumes "list_set (map Hour data) = sort (remdups (map Hour data))"
  shows "points (line_trace list_set data c l) = spec_hourly data c"
proof -
  have "(case mean xs of None \<Rightarrow> [] | Some w \<Rightarrow> [(k, w)]) =
      (let vs = non_null xs in if vs = [] then [] else [(k, arithmetic_mean vs)])" for xs and k :: nat
    by (simp add: mean_non_null Let_def)
  then show ?thesis
    by (simp add: points_def line_trace_def assms groupby_mean_def points_keyed spec_hourly_def
        sorted_list_of_set_image)
qed

section \<open>Sentinel, frame and the callback\<close>

text \<open>
  Claim C7. The replacement of line 66 turns every cell of a ride column that
  holds -999 into null and leaves every other cell, the key and the calendar
  columns as they are; it is the last step of the load, so no ride column of
  the final table holds -999.
\<close>

theorem sentinel_becomes_null:
  "length (replace_sentinel df) = length df \<and>
   (\<forall>i<length df. \<forall>c.
      get c (replace_sentinel df ! i) = (if get c (df ! i) = Some (- 999) then None else get c (df ! i))) \<and>
   map datetime (replace_sentinel df) = map datetime df \<and>
   map Year (replace_sentinel df) = map Year df \<and>
   map Month (replace_sentinel df) = map Month df \<and>
   map Day (replace_sentinel df) = map Day df \<and>
   map Hour (replace_sentinel df) = map Hour df \<and>
   (\<forall>r \<in> set (data_df dino everest passage safari navi). \<forall>c. get c r \<noteq> Some (- 999))"
proof (intro conjI allI impI ballI)
  show "length (replace_sentinel df) = length df"
    by (simp add: replace_sentinel_def)
next
  fix i c assume "i < length df"
  then show "get c (replace_sentinel df ! i) = (if get c (df ! i) = Some (- 999) then None else get c (df ! i))"
    by (cases c) (simp_all add: replace_sentinel_def replace_cell_def)
next
  fix r c
  assume "r \<in> set (data_df dino everest passage safari navi)"
  then obtain r' where "r = r'\<lparr>SPOSTMIN_dino := replace_cell (SPOSTMIN_dino r'),
                SPOSTMIN_everest := replace_cell (SPOSTMIN_everest r'),
                SPOSTMIN_passage := replace_cell (SPOSTMIN_passage r'),
                SPOSTMIN_safari := replace_cell (SPOSTMIN_safari r'),
                SPOSTMIN_navi := replace_cell (SPOSTMIN_navi r')\<rparr>"
    by (auto simp add: data_df_def replace_sentinel_def)
  then show "get c r \<noteq> Some (- 999)"
    by (cases c) (simp_all add: replace_cell_def)
qed (simp_all add: replace_sentinel_def comp_def)

text \<open>
  Claim C10. The backfill keeps the number and the order of the rows, the key and
  the calendar columns, and every cell of a ride column that holds a number
  before the backfill, -999 included, holds the same number after it.
\<close>

theorem backfill_changes_only_nulls:
  "length (backfill df) = length df \<and>
   map datetime (backfill df) = map datetime df \<and>
   map Year (backfill df) = map Year df \<and>
   map Month (backfill df) = map Month df \<and>
   map Day (backfill df) = map Day df \<and>
   map Hour (backfill df) = map Hour df \<and>
   (\<forall>i<length df. \<forall>c v. get c (df ! i) = Some v \<longrightarrow> get c (backfill df ! i) = Some v)"
proof (intro conjI allI impI)
  fix i c v
  assume "i < length df" "get c (df ! i) = Some v"
  then show "get c (backfill df ! i) = Some v"
    by (simp add: backfill_get_nth)
qed (simp_all add: backfill_def fold_bfill_col_frame)



lemma run_stmts_append:
  "run_stmts (fs @ gs) s =
     (case run_stmts fs s of (Some e, s') \<Rightarrow> (Some e, s') | (None, s') \<Rightarrow> run_stmts gs s')"
  by (induction fs arbitrary: s) (auto split: prod.splits option.splits)

lemma run_iteration:
  "run_stmts (iteration list_set d r) s =
     (if day_rows (st_data_df s) d = []
      then (Some ValueError, s\<lparr>st_data := [], st_means := groupby_mean Hour (rides ! r) []\<rparr>)
      else (None, s\<lparr>st_data := day_rows (st_data_df s) d,
                     st_means := groupby_mean Year (rides ! r) (day_rows (st_data_df s) d),
                     st_sorted := sort (list_set (map Year (day_rows (st_data_df s) d))),
                     st_line := st_line s @
                       [line_trace list_set (day_rows (st_data_df s) d) (rides ! r) (Some (name ! r))],
                     st_bar := st_bar s @
                       [bar_trace list_set (day_rows (st_data_df s) d) (rides ! r) (Some (name ! r))]\<rparr>))"
  by (simp add: iteration_def select_rows_def hour_means_def add_line_def year_means_def year_list_def
      sort_years_def add_bar_def apply_list_def line_trace_def bar_trace_def)

lemma run_loop:
  "st_data_df (snd (run_stmts (concat (map (iteration list_set d) rs)) s)) = st_data_df s \<and>
   returned (run_stmts (concat (map (iteration list_set d) rs)) s) =
     add_traces list_set (day_rows (st_data_df s) d) rs (st_line s, st_bar s)"
proof (induction rs arbitrary: s)
  case Nil
  then show ?case by (simp add: returned_def)
next
  case (Cons r rs)
  show ?case
  proof (cases "day_rows (st_data_df s) d = []")
    case True
    then show ?thesis
      by (simp add: run_stmts_append run_iteration returned_def apply_list_def)
  next
    case False
    then show ?thesis
      using Cons.IH by (simp add: run_stmts_append run_iteration apply_list_def)
  qed
qed

text \<open>
  Claim C9. A call of the callback, run statement by statement from any state,
  leaves the table \<open>data_df\<close> as it was, whether it returns or raises; what it
  returns is the function \<open>update_charts\<close> of the table, the selector and the date,
  whatever the other names held before; and a second call with the same selector
  and date, run from the state the first call left, returns the same figures.
\<close>

theorem update_charts_run_pure:
  "st_data_df (snd (update_charts_run list_set ride d s)) = st_data_df s \<and>
   returned (update_charts_run list_set ride d s) = update_charts list_set (st_data_df s) ride d \<and>
   returned (update_charts_run list_set ride d (snd (update_charts_run list_set ride d s))) =
     returned (update_charts_run list_set ride d s)"
proof -
  have one: "st_data_df (snd (update_charts_run list_set ride d t)) = st_data_df t \<and>
      returned (update_charts_run list_set ride d t) = update_charts list_set (st_data_df t) ride d"
    for t
  proof (cases "ride = ''All''")
    case True
    have "update_charts_run list_set ride d t =
        run_stmts (concat (map (iteration list_set d) [0..<length col])) (t\<lparr>st_line := [], st_bar := []\<rparr>)"
      using True by (simp add: update_charts_run_def all_body_def new_line_figure_def new_bar_figure_def)
    then show ?thesis
      using True run_loop [of list_set d "[0..<length col]" "t\<lparr>st_line := [], st_bar := []\<rparr>"]
      by (simp add: update_charts_def Let_def)
  next
    case False
    then show ?thesis
      by (simp add: update_charts_run_def single_body_def update_charts_def Let_def returned_def
          raise_def select_rows_def hour_means_def new_line_figure_def add_line_def year_means_def
          year_list_def sort_years_def new_bar_figure_def add_bar_def apply_list_def
          line_trace_def bar_trace_def split: option.splits)
  qed
  show ?thesis
    using one [of s] one [of "snd (update_charts_run list_set ride d s)"] by simp
qed

section \<open>The callback on the example tables\<close>

lemma set_iteration_cpython: "set_iteration cpython_small_set"
  by (simp add: set_iteration_def cpython_small_set_def)

lemma july_rows:
  "day_rows example_july (2021, 7, 4) =
     [mk_row (2021, 7, 4, 7, 0, 0) (Some 10) (Some 40) None None None,
      mk_row (2021, 7, 4, 8, 0, 0) (Some 30) None None None None,
      mk_row (2022, 7, 4, 7, 0, 0) (Some 20) (Some 15) None None None,
      mk_row (2022, 7, 4, 8, 0, 0) (Some 50) None None None None]"
  by (simp add: day_rows_def example_july_def mk_row_def calendar_def date_day_def date_month_def
      dt_year_def dt_month_def dt_day_def dt_hour_def)

lemma july_dino:
  "update_charts cpython_small_set example_july ''SPOSTMIN_dino'' (2021, 7, 4) =
     Inr ([\<lparr>trace_x = [8, 7], trace_y = [Some 15, Some 40], trace_name = Some ''Dinosaur''\<rparr>],
          [\<lparr>trace_x = [2021, 2022], trace_y = [Some 20, Some 35], trace_name = None\<rparr>])"
proof -
  have "update_charts cpython_small_set example_july (col ! 0) (2021, 7, 4) =
     Inr ([line_trace cpython_small_set (day_rows example_july (2021, 7, 4)) (rides ! 0) (Some (name ! 0))],
          [bar_trace cpython_small_set (day_rows example_july (2021, 7, 4)) (rides ! 0) None])"
    by (rule update_charts_col) (simp_all add: col_facts july_rows)
  then show ?thesis
    by (simp add: july_rows col_def rides_def name_def line_trace_def bar_trace_def groupby_mean_def
        cpython_small_set_def mean_def mk_row_def calendar_def dt_year_def dt_month_def dt_day_def dt_hour_def)
qed

lemma non_null_simps:
  "non_null [] = []" "non_null (None # xs) = non_null xs" "non_null (Some v # xs) = v # non_null xs"
  by (simp_all add: non_null_def)

lemma spec_hourly_sort:
  "spec_hourly data c =
     concat (map (\<lambda>h. let vs = non_null (map (get c) (filter (\<lambda>r. Hour r = h) data))
                       in if vs = [] then [] else [(h, arithmetic_mean vs)])
                 (sort (remdups (map Hour data))))"
  by (simp add: spec_hourly_def sorted_list_of_set_image)

lemma spec_yearly_sort:
  "spec_yearly data c =
     map (\<lambda>yr. (yr, let vs = non_null (map (get c) (filter (\<lambda>r. Year r = yr) data))
                    in if vs = [] then None else Some (arithmetic_mean vs)))
         (sort (remdups (map Year data)))"
  by (simp add: spec_yearly_def sorted_list_of_set_image)

text \<open>
  Claim C4. The \<open>x\<close> values of a line are the hours in the order of \<open>list(set(...))\<close>,
  the \<open>y\<close> values are the means by ascending hour. On the fourth of July of the
  example the hours 7 and 8 come out as 8, 7: the line pairs hour 8 with the mean
  of hour 7 and hour 7 with the mean of hour 8.
\<close>

theorem hourly_axis_in_set_order:
  "update_charts cpython_small_set example_july ''SPOSTMIN_dino'' (2021, 7, 4) =
     Inr ([\<lparr>trace_x = [8, 7], trace_y = [Some 15, Some 40], trace_name = Some ''Dinosaur''\<rparr>],
          [\<lparr>trace_x = [2021, 2022], trace_y = [Some 20, Some 35], trace_name = None\<rparr>]) \<and>
   points \<lparr>trace_x = [8, 7], trace_y = [Some 15, Some 40], trace_name = Some ''Dinosaur''\<rparr> =
     [(8, 15), (7, 40)] \<and>
   spec_hourly (day_rows example_july (2021, 7, 4)) Dino = [(7, 15), (8, 40)]"
proof (intro conjI)
  show "spec_hourly (day_rows example_july (2021, 7, 4)) Dino = [(7, 15), (8, 40)]"
    by (simp add: july_rows spec_hourly_sort non_null_simps arithmetic_mean_def
        mk_row_def calendar_def dt_year_def dt_month_def dt_day_def dt_hour_def)
qed (simp_all add: july_dino points_def)

lemma july_all_names:
  "map (\<lambda>r. Some (name ! r)) [0..<length col] = map Some name"
  by (simp add: col_def name_def upt_rec)

text \<open>
  Claim C8. On the fourth of July of the example, "All" returns five lines and
  five bars, each named after its ride; the single selector "SPOSTMIN_dino"
  returns one line, named "Dinosaur", and one bar, which has no name.
\<close>

theorem single_ride_bar_has_no_name:
  "(case update_charts cpython_small_set example_july ''All'' (2021, 7, 4) of
      Inl e \<Rightarrow> False
    | Inr (lines, bars) \<Rightarrow>
        length lines = 5 \<and> length bars = 5 \<and>
        map trace_name lines = map Some name \<and> map trace_name bars = map Some name) \<and>
   (case update_charts cpython_small_set example_july ''SPOSTMIN_dino'' (2021, 7, 4) of
      Inl e \<Rightarrow> False
    | Inr (lines, bars) \<Rightarrow>
        map trace_name lines = [Some ''Dinosaur''] \<and> map trace_name bars = [None])"
proof
  have rows: "day_rows example_july (2021, 7, 4) \<noteq> []" by (simp add: july_rows)
  show "case update_charts cpython_small_set example_july ''All'' (2021, 7, 4) of
      Inl e \<Rightarrow> False
    | Inr (lines, bars) \<Rightarrow>
        length lines = 5 \<and> length bars = 5 \<and>
        map trace_name lines = map Some name \<and> map trace_name bars = map Some name"
    using july_all_names
    by (simp add: update_charts_All [OF rows] line_trace_def bar_trace_def comp_def col_facts)
next
  show "case update_charts cpython_small_set example_july ''SPOSTMIN_dino'' (2021, 7, 4) of
      Inl e \<Rightarrow> False
    | Inr (lines, bars) \<Rightarrow>
        map trace_name lines = [Some ''Dinosaur''] \<and> map trace_name bars = [None]"
    by (simp add: july_dino)
qed






theorem yearly_series_mean_by_year_witness:
  "set_iteration cpython_small_set \<and>
   (\<exists>line bar. update_charts cpython_small_set example_july ''SPOSTMIN_dino'' (2021, 7, 4) = Inr ([line], [bar]) \<and>
      zip (trace_x bar) (trace_y bar) = [(2021, Some 20), (2022, Some 35)])"
proof -
  have s: "spec_yearly (day_rows example_july (2021, 7, 4)) Dino = [(2021, Some 20), (2022, Some 35)]"
    by (simp add: july_rows spec_yearly_sort non_null_simps arithmetic_mean_def
        mk_row_def calendar_def dt_year_def dt_month_def dt_day_def dt_hour_def)
  have c0: "col ! 0 = ''SPOSTMIN_dino''" "rides ! 0 = Dino" "0 < length col"
    by (simp_all add: col_def rides_def)
  have rows: "day_rows example_july (2021, 7, 4) \<noteq> []" by (simp add: july_rows)
  note T = yearly_series_mean_by_year [OF set_iteration_cpython, of example_july "(2021, 7, 4)"]
  from T rows c0(3) obtain lines bars where
    r: "update_charts cpython_small_set example_july (col ! 0) (2021, 7, 4) = Inr (lines, bars)"
    by blast
  from T c0(3) r obtain line bar where
    "lines = [line]" "bars = [bar]"
    "zip (trace_x bar) (trace_y bar) = spec_yearly (day_rows example_july (2021, 7, 4)) (rides ! 0)"
    by blast
  then show ?thesis
    using set_iteration_cpython r by (simp add: c0 s)
qed

theorem backfill_changes_only_nulls_witness:
  "get Everest (example_day ! 4) = Some (- 999) \<and> get Everest (backfill example_day ! 4) = Some (- 999)"
proof -
  have a: "4 < length example_day" "get Everest (example_day ! 4) = Some (- 999)"
    by (simp_all add: example_day_def mk_row_def calendar_def)
  then show ?thesis
    using backfill_changes_only_nulls [of example_day] by blast
qed

section \<open>The load on the example files\<close>

lemma unified_example:
  "unified (dropna example_dino) (dropna example_everest) [] [] [] =
     [mk_row (2021, 6, 1, 10, 0, 0) (Some (- 999)) None None None None,
      mk_row (2021, 6, 1, 11, 0, 0) (Some 25) (Some 5) None None None]"
  by (simp add: example_dino_def example_everest_def dropna_def unified_def merge_all_def
      merge_outer_def merge_rows_def fill_left_def mk_row_def)

lemma length_data_df:
  "length (data_df dino everest passage safari navi) =
     length (unified (dropna dino) (dropna everest) (dropna passage) (dropna safari) (dropna navi))"
  by (simp add: data_df_def replace_sentinel_def backfill_def fold_bfill_col_frame(1) sort_values_def)

theorem sentinel_becomes_null_witness:
  "get Everest (example_day ! 4) = Some (- 999) \<and>
   get Everest (replace_sentinel example_day ! 4) = None \<and>
   get Dino (replace_sentinel example_day ! 0) = Some 5 \<and>
   get Dino (hd (data_df example_dino example_everest [] [] [])) \<noteq> Some (- 999)"
proof -
  note T = sentinel_becomes_null [of example_day example_dino example_everest "[]" "[]" "[]"]
  have a: "4 < length example_day" "0 < length example_day"
    "get Everest (example_day ! 4) = Some (- 999)" "get Dino (example_day ! 0) = Some 5"
    by (simp_all add: example_day_def mk_row_def calendar_def)
  from T a(1) have "get Everest (replace_sentinel example_day ! 4) =
      (if get Everest (example_day ! 4) = Some (- 999) then None else get Everest (example_day ! 4))"
    by blast
  then have e: "get Everest (replace_sentinel example_day ! 4) = None"
    unfolding a(3) by simp
  from T a(2) have "get Dino (replace_sentinel example_day ! 0) =
      (if get Dino (example_day ! 0) = Some (- 999) then None else get Dino (example_day ! 0))"
    by blast
  then have d: "get Dino (replace_sentinel example_day ! 0) = Some 5"
    unfolding a(4) by simp
  have dn: "dropna ([] :: (timestamp \<times> val option) list) = []"
    by (simp add: dropna_def)
  have "length (data_df example_dino example_everest [] [] []) = 2"
    unfolding length_data_df dn unified_example by simp
  then have "data_df example_dino example_everest [] [] [] \<noteq> []" by auto
  then have "hd (data_df example_dino example_everest [] [] []) \<in> set (data_df example_dino example_everest [] [] [])"
    by simp
  then have f: "get Dino (hd (data_df example_dino example_everest [] [] [])) \<noteq> Some (- 999)"
    using T by blast
  show ?thesis using a(3) e d f by blast
qed

theorem unified_one_row_per_timestamp_witness:
  "distinct (map fst (dropna example_dino)) \<and> distinct (map fst (dropna example_everest)) \<and>
   distinct (map datetime (unified (dropna example_dino) (dropna example_everest) [] [] [])) \<and>
   set (map datetime (unified (dropna example_dino) (dropna example_everest) [] [] []))
     = {(2021, 6, 1, 10, 0, 0), (2021, 6, 1, 11, 0, 0)}"
proof -
  have d: "dropna example_dino = [((2021, 6, 1, 11, 0, 0), 25), ((2021, 6, 1, 10, 0, 0), - 999)]"
    "dropna example_everest = [((2021, 6, 1, 11, 0, 0), 5)]"
    by (simp_all add: dropna_def example_dino_def example_everest_def)
  have h: "distinct (map fst (dropna example_dino))" "distinct (map fst (dropna example_everest))"
    "distinct (map fst ([] :: (timestamp \<times> val) list))"
    by (simp_all add: d)
  note T = unified_one_row_per_timestamp [OF h(1) h(2) h(3) h(3) h(3)]
  have a: "distinct (map datetime (unified (dropna example_dino) (dropna example_everest) [] [] []))"
    by (rule conjunct1 [OF T])
  have b: "set (map datetime (unified (dropna example_dino) (dropna example_everest) [] [] [])) =
       fst ` set (dropna example_dino) \<union> fst ` set (dropna example_everest)"
    using conjunct1 [OF conjunct2 [OF T]] by simp
  have c: "fst ` set (dropna example_dino) \<union> fst ` set (dropna example_everest)
      = {(2021, 6, 1, 10, 0, 0), (2021, 6, 1, 11, 0, 0) :: timestamp}"
    unfolding d by auto
  show ?thesis
    using h(1,2) a b unfolding c by (intro conjI)
qed

end
